theory Spec2Isabelle
  imports Main "HOL-Library.AList"
begin

section \<open>Strings, errors and objects\<close>

text \<open>
  A JavaScript string is modelled as a \<^typ>\<open>string\<close>: a list of code units, each below
  U+0100. Exceptions and rejected promises are values of the type \<open>error\<close>; a computation
  that may throw returns \<open>error + 'a\<close>, with \<open>Inl\<close> carrying what was thrown.
\<close>

datatype error =
    FileReadError string
  | ParseError string
  | TypeError string
  | CallbackError string

text \<open>
  A plain object with string values (\<open>Record<string, any>\<close> in \<open>less-vars.ts\<close>) is an
  association list with pairwise distinct keys, in the order the properties were created.
  Assigning \<open>o[k] = v\<close> overwrites the value of an existing property where it stands and
  otherwise creates the property at the end. Keys are ordinary property names: the name
  \<open>__proto__\<close>, which an assignment does not store as a property of the object, is left
  out.
\<close>

type_synonym obj = "(string \<times> string) list"

definition obj_set :: "obj \<Rightarrow> string \<Rightarrow> string \<Rightarrow> obj" where
  "obj_set ob k v = AList.update k v ob"

definition obj_get :: "obj \<Rightarrow> string \<Rightarrow> string option" where
  "obj_get ob k = map_of ob k"

text \<open>
  The own keys of an object are enumerated with the array indices first, in ascending
  numeric order, and the other names after them in creation order. An array index is the
  canonical decimal form of an integer from 0 to \<open>2^32 - 2\<close>.
\<close>

definition is_digit :: "char \<Rightarrow> bool" where
  "is_digit c = ((48::nat) \<le> of_char c \<and> of_char c \<le> (57::nat))"

definition digit_value :: "char \<Rightarrow> nat" where
  "digit_value c = of_char c - 48"

definition index_value :: "string \<Rightarrow> nat" where
  "index_value s = foldl (\<lambda>a c. 10 * a + digit_value c) 0 s"

definition is_array_index :: "string \<Rightarrow> bool" where
  "is_array_index s =
     (s \<noteq> [] \<and> list_all is_digit s \<and> (s = ''0'' \<or> hd s \<noteq> CHR ''0'')
      \<and> index_value s < 4294967295)"

definition own_keys :: "obj \<Rightarrow> string list" where
  "own_keys ob =
     sort_key index_value (filter is_array_index (map fst ob))
     @ filter (\<lambda>k. \<not> is_array_index k) (map fst ob)"

text \<open>Object spread \<open>{...target, ...src}\<close>: every own property of \<open>src\<close>, in key order,
  is defined on the target.\<close>

definition spread :: "obj \<Rightarrow> obj \<Rightarrow> obj" where
  "spread target src =
     fold (\<lambda>k ob. case obj_get src k of None \<Rightarrow> ob | Some v \<Rightarrow> obj_set ob k v)
       (own_keys src) target"

section \<open>The variable extractor (\<open>src/lib/less-vars.ts\<close>)\<close>

text \<open>
  The parse tree has an optional list \<open>rules\<close> of top-level nodes, typed \<open>any\<close> in the
  source. The source reads two properties of a node: \<open>name\<close>, a string it slices, and
  \<open>value\<close>, on which it calls \<open>toCSS()\<close>. A node is therefore a pair of optional fields:
  \<open>name\<close> is \<open>None\<close> when the node has no such property (a rule block, a comment), and
  \<open>value\<close> holds the text \<open>toCSS()\<close> returns, or \<open>None\<close> when the node has no value that
  renders.
\<close>

record node =
  name :: "string option"
  "value" :: "string option"

record tree =
  rules :: "node list option"

text \<open>
  What the code takes from its host. \<open>readFileSync\<close> gives the text of a file or throws;
  \<open>parse\<close> is \<open>less.parse\<close>, which gives a tree or rejects; \<open>path_resolve\<close> is
  \<open>path.resolve\<close> on two segments; \<open>dirname\<close> is the directory of the module;
  \<open>less_loader_path\<close> is what \<open>require.resolve('less-loader')\<close> returns;
  \<open>dark_settles_first\<close> is the order in which the two extractions of \<open>getThemeVars\<close>
  settle when both are rejected.
\<close>

record env =
  readFileSync :: "string \<Rightarrow> error + string"
  parse :: "string \<Rightarrow> error + tree"
  path_resolve :: "string \<Rightarrow> string \<Rightarrow> string"
  dirname :: string
  less_loader_path :: string
  dark_settles_first :: bool

text \<open>The body of the \<open>forEach\<close> callback, and the loop. Reading \<open>.slice\<close> of a missing
  name, or \<open>.toCSS\<close> of a missing value, throws a \<open>TypeError\<close> that ends the loop; the
  string it carries names the property that could not be read.\<close>

definition add_variable :: "obj \<Rightarrow> node \<Rightarrow> error + obj" where
  "add_variable variables rule =
     (case name rule of
        None \<Rightarrow> Inl (TypeError ''slice'')
      | Some n \<Rightarrow>
          (case value rule of
             None \<Rightarrow> Inl (TypeError ''toCSS'')
           | Some v \<Rightarrow> Inr (obj_set variables (drop 1 n) v)))"

fun forEach_rules :: "obj \<Rightarrow> node list \<Rightarrow> error + obj" where
  "forEach_rules variables [] = Inr variables"
| "forEach_rules variables (rule # rest) =
     (case add_variable variables rule of
        Inl e \<Rightarrow> Inl e
      | Inr variables' \<Rightarrow> forEach_rules variables' rest)"

text \<open>
  \<open>parseLessVariables\<close> with the calls it makes on its collaborators, in order. The
  \<open>catch\<close> block writes the error to the console and throws it again.
\<close>

datatype event =
    ReadFile string
  | Parse string
  | ConsoleError error

definition parseLessVariables_trace :: "env \<Rightarrow> string \<Rightarrow> event list \<times> (error + obj)" where
  "parseLessVariables_trace E filePath =
     (case readFileSync E filePath of
        Inl e \<Rightarrow> ([ReadFile filePath, ConsoleError e], Inl e)
      | Inr fileContent \<Rightarrow>
          (case parse E fileContent of
             Inl e \<Rightarrow> ([ReadFile filePath, Parse fileContent, ConsoleError e], Inl e)
           | Inr all \<Rightarrow>
               (case (case rules all of
                        None \<Rightarrow> Inr []
                      | Some rs \<Rightarrow> forEach_rules [] rs) of
                  Inl e \<Rightarrow> ([ReadFile filePath, Parse fileContent, ConsoleError e], Inl e)
                | Inr variables \<Rightarrow> ([ReadFile filePath, Parse fileContent], Inr variables))))"

definition parseLessVariables :: "env \<Rightarrow> string \<Rightarrow> error + obj" where
  "parseLessVariables E filePath = snd (parseLessVariables_trace E filePath)"

section \<open>The plugin (\<open>src/lib/index.ts\<close>)\<close>

datatype theme = Dark | Light

record ThemePluginOptions =
  root :: string
  themeDir :: string
  darkFileName :: string
  lightFileName :: string
  themeClassPre :: string
  initTheme :: theme

definition defaultOptions :: "string \<Rightarrow> ThemePluginOptions" where
  "defaultOptions cwd =
     \<lparr>root = cwd, themeDir = ''src/theme'', darkFileName = ''dark.less'',
      lightFileName = ''light.less'', themeClassPre = ''antd-theme'', initTheme = Dark\<rparr>"

subsection \<open>Theme variables and the override block\<close>

text \<open>
  \<open>Promise.all\<close> on two promises: it fulfils with both values, and rejects as soon as
  one of them rejects. When both reject, the error is that of the promise that settles
  first, which the host's scheduler decides: \<open>first\<close> says whether it is the left one.
\<close>

definition Promise_all2 :: "bool \<Rightarrow> error + 'a \<Rightarrow> error + 'b \<Rightarrow> error + ('a \<times> 'b)" where
  "Promise_all2 first a b =
     (case a of
        Inr x \<Rightarrow> (case b of Inr y \<Rightarrow> Inr (x, y) | Inl e \<Rightarrow> Inl e)
      | Inl e1 \<Rightarrow> (case b of Inr y \<Rightarrow> Inl e1 | Inl e2 \<Rightarrow> Inl (if first then e1 else e2)))"

record theme_vars =
  light :: obj
  dark :: obj

definition getThemeVars :: "env \<Rightarrow> ThemePluginOptions \<Rightarrow> error + theme_vars" where
  "getThemeVars E opts =
     (let basePath = path_resolve E (root opts) (themeDir opts) in
      case Promise_all2 (dark_settles_first E)
             (parseLessVariables E (path_resolve E basePath (darkFileName opts)))
             (parseLessVariables E (path_resolve E basePath (lightFileName opts))) of
        Inl e \<Rightarrow> Inl e
      | Inr (d, l) \<Rightarrow> Inr \<lparr>light = l, dark = d\<rparr>)"

definition placeholder :: "string \<Rightarrow> string \<Rightarrow> string" where
  "placeholder pre key = ''~'var(--'' @ pre @ ''-'' @ key @ [CHR '')'', CHR 0x27]"

definition getLessVariables :: "env \<Rightarrow> ThemePluginOptions \<Rightarrow> error + (string \<times> string) list" where
  "getLessVariables E opts =
     (case getThemeVars E opts of
        Inl e \<Rightarrow> Inl e
      | Inr tv \<Rightarrow>
          Inr (map (\<lambda>key. (key, placeholder (themeClassPre opts) key))
                 (own_keys (spread (spread [] (light tv)) (dark tv)))))"

definition lessDefaultAddictionData :: "env \<Rightarrow> ThemePluginOptions \<Rightarrow> error + string" where
  "lessDefaultAddictionData E opts =
     (case getLessVariables E opts of
        Inl e \<Rightarrow> Inl e
      | Inr variables \<Rightarrow>
          Inr (foldl (\<lambda>pre (key, v). pre @ ''@'' @ key @ '':'' @ v @ '';'') [] variables))"

subsection \<open>Regular expressions and \<open>String.prototype.replace\<close>\<close>

text \<open>\<open>/pat/.test(s)\<close> for a literal pattern, and \<open>/pat$/.test(s)\<close>.\<close>

fun str_includes :: "string \<Rightarrow> string \<Rightarrow> bool" where
  "str_includes pat [] = (pat = [])"
| "str_includes pat (c # cs) = (take (length pat) (c # cs) = pat \<or> str_includes pat cs)"

definition ends_with :: "string \<Rightarrow> string \<Rightarrow> bool" where
  "ends_with pat s = (length pat \<le> length s \<and> drop (length s - length pat) s = pat)"

text \<open>\<open>trim\<close> removes white space and line terminators from both ends.\<close>

definition is_white_space :: "char \<Rightarrow> bool" where
  "is_white_space c = ((of_char c :: nat) \<in> {9, 10, 11, 12, 13, 32, 160})"

definition trim :: "string \<Rightarrow> string" where
  "trim s = rev (dropWhile is_white_space (rev (dropWhile is_white_space s)))"

text \<open>
  A match of \<open>/(@import.*;)/\<close> at the start of \<open>s\<close>, as its length. The dot matches
  every code unit but a line terminator and the star is greedy, so the match runs from
  \<open>@import\<close> to the last semicolon before the end of the line.
\<close>

definition is_line_terminator :: "char \<Rightarrow> bool" where
  "is_line_terminator c = (c = CHR 0x0A \<or> c = CHR 0x0D)"

definition match_import :: "string \<Rightarrow> nat option" where
  "match_import s =
     (if take 7 s = ''@import'' then
        (let line = takeWhile (\<lambda>c. \<not> is_line_terminator c) (drop 7 s) in
         if CHR '';'' \<in> set line
         then Some (7 + (length line - length (takeWhile (\<lambda>c. c \<noteq> CHR '';'') (rev line))))
         else None)
      else None)"

text \<open>
  The expansion of a replacement template for a pattern with one capture group that
  spans the whole match: \<open>$$\<close> is a dollar sign, \<open>$&\<close>, \<open>$1\<close> and \<open>$01\<close> are the match,
  \<open>$`\<close> is the text before it and \<open>$'\<close> the text after it; any other dollar sign stands
  for itself.
\<close>

fun GetSubstitution :: "string \<Rightarrow> string \<Rightarrow> string \<Rightarrow> string \<Rightarrow> string" where
  "GetSubstitution matched preceding following [] = []"
| "GetSubstitution matched preceding following [c] = [c]"
| "GetSubstitution matched preceding following (c # d # t) =
     (if c \<noteq> CHR ''$'' then c # GetSubstitution matched preceding following (d # t)
      else if d = CHR ''$'' then CHR ''$'' # GetSubstitution matched preceding following t
      else if d = CHR ''&'' then matched @ GetSubstitution matched preceding following t
      else if d = CHR 0x60 then preceding @ GetSubstitution matched preceding following t
      else if d = CHR 0x27 then following @ GetSubstitution matched preceding following t
      else if d = CHR ''0'' \<and> take 1 t = ''1''
        then matched @ GetSubstitution matched preceding following (drop 1 t)
      else if d = CHR ''1'' then matched @ GetSubstitution matched preceding following t
      else CHR ''$'' # GetSubstitution matched preceding following (d # t))"

text \<open>
  \<open>s.replace(/(@import.*;)/g, template)\<close>, scanning \<open>s\<close> from the left; \<open>preceding\<close> is the
  part of the subject already passed.
\<close>

function replace_imports :: "string \<Rightarrow> string \<Rightarrow> string \<Rightarrow> string" where
  "replace_imports template preceding s =
     (if s = [] then []
      else (case match_import s of
              Some n \<Rightarrow>
                GetSubstitution (take n s) preceding (drop n s) template
                @ replace_imports template (preceding @ take n s) (drop n s)
            | None \<Rightarrow> hd s # replace_imports template (preceding @ [hd s]) (tl s)))"
  by pat_completeness auto
termination
  by (relation "measure (\<lambda>(t, b, s). length s)")
     (auto simp: match_import_def Let_def split: if_splits)

declare replace_imports.simps [simp del]

subsection \<open>The content-prepend function\<close>

text \<open>
  The \<open>additionalData\<close> option of the Less loader is a string or a function from the
  content to a promise of the new content (the loader context it also receives is fixed
  with the function). \<open>getLessAddictionData\<close> returns a function of that kind; here it is
  applied to the content at once.
\<close>

datatype additional_data =
    AD_String string
  | AD_Function "string \<Rightarrow> error + string"

definition getLessAddictionData ::
  "env \<Rightarrow> ThemePluginOptions \<Rightarrow> additional_data \<Rightarrow> string \<Rightarrow> error + string" where
  "getLessAddictionData E opts originData content =
     (case lessDefaultAddictionData E opts of
        Inl e \<Rightarrow> Inl e
      | Inr vars \<Rightarrow>
          (case (case originData of
                   AD_Function f \<Rightarrow> f content
                 | AD_String s \<Rightarrow> Inr (s @ content)) of
             Inl e \<Rightarrow> Inl e
           | Inr newContent \<Rightarrow>
               if take 7 (trim newContent) = ''@import''
               then Inr (replace_imports (''$1'' @ vars) [] newContent)
               else Inr (vars @ newContent)))"

subsection \<open>Rules, steps and the rewrite of the loader chain\<close>

text \<open>
  A step of a rule is a string, a function (given by its source text, which is what the
  pattern test of \<open>formatLessLoader\<close> sees) or an object with a \<open>loader\<close> and \<open>options\<close>
  (the pattern test sees it as \<open>[object Object]\<close>). An options object is its
  \<open>additionalData\<close> and the list of its other entries; \<open>extras\<close> are the properties of a
  step other than \<open>loader\<close> and \<open>options\<close>. Objects are values here: two rules do not share
  a step sequence.
\<close>

record loader_options =
  additionalData :: "additional_data option"
  entries :: "(string \<times> string) list"

record loader_object =
  loader :: "string option"
  options :: "loader_options option"
  extras :: "(string \<times> string) list"

datatype use_item =
    ItemString string
  | ItemFunction string
  | ItemObject loader_object

text \<open>The \<open>use\<close> of a rule: one step, a sequence of steps, or nothing.\<close>

datatype rule_use =
    UseSingle use_item
  | UseArray "use_item list"
  | UseAbsent

text \<open>The \<open>test\<close> of a rule: a regular expression, given by the strings it accepts (it
  carries no \<open>g\<close> or \<open>y\<close> flag, so testing does not change it), or anything else.\<close>

datatype rule_test =
    RegExp "string \<Rightarrow> bool"
  | NotRegExp

record rule =
  test :: rule_test
  use :: rule_use

definition theme_name :: "theme \<Rightarrow> string" where
  "theme_name t = (case t of Dark \<Rightarrow> ''dark'' | Light \<Rightarrow> ''light'')"

definition option_entries :: "ThemePluginOptions \<Rightarrow> (string \<times> string) list" where
  "option_entries opts =
     [(''root'', root opts), (''themeClassPre'', themeClassPre opts),
      (''themeDir'', themeDir opts), (''darkFileName'', darkFileName opts),
      (''lightFileName'', lightFileName opts), (''initTheme'', theme_name (initTheme opts))]"

definition loaderPath :: "env \<Rightarrow> string" where
  "loaderPath E = path_resolve E (dirname E) ''theme-var-loader.cjs''"

text \<open>The injected step, \<open>{loader: loaderPath, options: this.options}\<close>.\<close>

definition injected_loader :: "env \<Rightarrow> ThemePluginOptions \<Rightarrow> use_item" where
  "injected_loader E opts =
     ItemObject \<lparr>loader = Some (loaderPath E),
                 options = Some \<lparr>additionalData = None, entries = option_entries opts\<rparr>,
                 extras = []\<rparr>"

text \<open>
  \<open>formatLessLoader\<close>. Its argument is \<open>None\<close> for \<open>undefined\<close>, which is what reading
  the last element of an empty sequence gives: the pattern test and the type tests fail
  on it, and reading its \<open>loader\<close> throws.
\<close>

definition userAdditionalData :: "loader_object \<Rightarrow> additional_data" where
  "userAdditionalData ob =
     (case options ob of
        None \<Rightarrow> AD_String []
      | Some os \<Rightarrow> (case additionalData os of None \<Rightarrow> AD_String [] | Some ad \<Rightarrow> ad))"

definition less_loader_item :: "env \<Rightarrow> ThemePluginOptions \<Rightarrow> use_item" where
  "less_loader_item E opts =
     ItemObject
       \<lparr>loader = Some (less_loader_path E),
        options = Some \<lparr>additionalData =
                           Some (AD_Function (getLessAddictionData E opts (AD_String []))),
                         entries = []\<rparr>,
        extras = []\<rparr>"

definition formatLessLoader ::
  "env \<Rightarrow> ThemePluginOptions \<Rightarrow> use_item option \<Rightarrow> error + use_item" where
  "formatLessLoader E opts loadInfo =
     (case loadInfo of
        None \<Rightarrow> Inl (TypeError ''loader'')
      | Some (ItemString s) \<Rightarrow>
          if ends_with ''less-loader'' s then Inr (less_loader_item E opts)
          else Inr (ItemString s)
      | Some (ItemFunction src) \<Rightarrow>
          if ends_with ''less-loader'' src then Inr (less_loader_item E opts)
          else Inr (ItemFunction src)
      | Some (ItemObject ob) \<Rightarrow>
          Inr (ItemObject
                 \<lparr>loader = loader ob,
                  options =
                    Some \<lparr>additionalData =
                            Some (AD_Function
                                    (getLessAddictionData E opts (userAdditionalData ob))),
                          entries = (case options ob of None \<Rightarrow> [] | Some os \<Rightarrow> entries os)\<rparr>,
                  extras = []\<rparr>))"

text \<open>The scan for a step that is already the injected one.\<close>

definition is_injected :: "use_item \<Rightarrow> bool" where
  "is_injected item =
     (case item of
        ItemObject ob \<Rightarrow>
          str_includes ''theme-var-loader'' (case loader ob of None \<Rightarrow> [] | Some l \<Rightarrow> l)
      | _ \<Rightarrow> False)"

definition splice_insert :: "nat \<Rightarrow> 'a \<Rightarrow> 'a list \<Rightarrow> 'a list" where
  "splice_insert i x xs = take i xs @ [x] @ drop i xs"

text \<open>
  The body of the \<open>forEach\<close> over the Less rules. On an empty sequence the index
  \<open>length - 1\<close> is \<open>-1\<close>, the element read there is \<open>undefined\<close> and \<open>formatLessLoader\<close>
  throws before anything is written, so the index is only used when it is a position.
\<close>

definition rewrite_rule :: "env \<Rightarrow> ThemePluginOptions \<Rightarrow> rule \<Rightarrow> error + rule" where
  "rewrite_rule E opts ruleItem =
     (case use ruleItem of
        UseSingle (ItemString s) \<Rightarrow>
          if str_includes ''less-loader'' s then
            (case formatLessLoader E opts (Some (ItemString s)) of
               Inl e \<Rightarrow> Inl e
             | Inr w \<Rightarrow> Inr (ruleItem\<lparr>use := UseArray [injected_loader E opts, w]\<rparr>))
          else Inr ruleItem
      | UseArray items \<Rightarrow>
          if list_ex is_injected items then Inr ruleItem
          else
            (let lessLoaderIndex = length items - 1 in
             case formatLessLoader E opts
                    (if items = [] then None else Some (items ! lessLoaderIndex)) of
               Inl e \<Rightarrow> Inl e
             | Inr w \<Rightarrow>
                 Inr (ruleItem\<lparr>use := UseArray
                        (splice_insert lessLoaderIndex (injected_loader E opts)
                           (items[lessLoaderIndex := w]))\<rparr>))
      | _ \<Rightarrow> Inr ruleItem)"

definition is_less_rule :: "rule \<Rightarrow> bool" where
  "is_less_rule item = (case test item of RegExp accepts \<Rightarrow> accepts ''index.less'' | NotRegExp \<Rightarrow> False)"

text \<open>
  The callback of the \<open>environment\<close> hook: the rules that pass the filter are rewritten
  where they stand, from the first to the last. The result is the rule list as the hook
  leaves it and the error it throws, if any; a throw leaves the rules rewritten so far in
  place. (The second hook of \<open>apply\<close>, which splices a script into the entry asset, is not
  part of the model.)
\<close>

fun apply_environment ::
  "env \<Rightarrow> ThemePluginOptions \<Rightarrow> rule list \<Rightarrow> rule list \<times> error option" where
  "apply_environment E opts [] = ([], None)"
| "apply_environment E opts (r # rs) =
     (if is_less_rule r then
        (case rewrite_rule E opts r of
           Inl e \<Rightarrow> (r # rs, Some e)
         | Inr r' \<Rightarrow>
             (case apply_environment E opts rs of (rs', err) \<Rightarrow> (r' # rs', err)))
      else (case apply_environment E opts rs of (rs', err) \<Rightarrow> (r # rs', err)))"

section \<open>Vocabulary of the specification and a table-driven environment\<close>

text \<open>A top-level declaration is a node with a name and a value that renders; its key is
  the name without its first character.\<close>

definition is_declaration :: "node \<Rightarrow> bool" where
  "is_declaration n = (name n \<noteq> None \<and> value n \<noteq> None)"



definition decl :: "string \<Rightarrow> string \<Rightarrow> node" where
  "decl n v = \<lparr>name = Some n, value = Some v\<rparr>"


text \<open>The names of a list without repetition, in the order of their first appearance.\<close>

primrec uniq_first :: "'a list \<Rightarrow> 'a list \<Rightarrow> 'a list" where
  "uniq_first seen [] = []"
| "uniq_first seen (x # xs) =
     (if x \<in> set seen then uniq_first seen xs else x # uniq_first (x # seen) xs)"

definition first_seen :: "'a list \<Rightarrow> 'a list" where
  "first_seen xs = uniq_first [] xs"

text \<open>One declaration of the override block, and the block for a list of names.\<close>

definition override_declaration :: "string \<Rightarrow> string \<Rightarrow> string" where
  "override_declaration pre key = ''@'' @ key @ '':'' @ placeholder pre key @ '';''"

definition override_block :: "string \<Rightarrow> string list \<Rightarrow> string" where
  "override_block pre keys = concat (map (override_declaration pre) keys)"

text \<open>The path of a theme file, as \<open>getThemeVars\<close> resolves it.\<close>

definition theme_file :: "env \<Rightarrow> ThemePluginOptions \<Rightarrow> string \<Rightarrow> string" where
  "theme_file E opts fileName =
     path_resolve E (path_resolve E (root opts) (themeDir opts)) fileName"

text \<open>
  The specification's reading of the override block: the names of the dark variant first,
  then those of the light variant, each once.
\<close>

definition spec_override_block :: "string \<Rightarrow> string list \<Rightarrow> string list \<Rightarrow> string" where
  "spec_override_block pre dark_keys light_keys =
     override_block pre (first_seen (dark_keys @ light_keys))"

text \<open>
  An environment given by two tables: the files that can be read, with their text, and the
  texts that parse, with their trees. Reading any other path and parsing any other text
  fail. Paths are joined with a slash.
\<close>

definition table_env :: "(string \<times> string) list \<Rightarrow> (string \<times> tree) list \<Rightarrow> env" where
  "table_env files trees =
     \<lparr>readFileSync = (\<lambda>p. case map_of files p of
                              None \<Rightarrow> Inl (FileReadError p)
                            | Some c \<Rightarrow> Inr c),
      parse = (\<lambda>c. case map_of trees c of
                       None \<Rightarrow> Inl (ParseError c)
                     | Some t \<Rightarrow> Inr t),
      path_resolve = (\<lambda>a b. a @ ''/'' @ b),
      dirname = ''/app/node_modules/css-theme-plugin/dist'',
      less_loader_path = ''/app/node_modules/less-loader/dist/cjs.js'',
      dark_settles_first = True\<rparr>"

text \<open>A project whose dark and light theme files hold the given declarations.\<close>

definition theme_env :: "node list \<Rightarrow> node list \<Rightarrow> env" where
  "theme_env dark_rules light_rules =
     table_env
       [(''/app/src/theme/dark.less'', ''dark''), (''/app/src/theme/light.less'', ''light'')]
       [(''dark'', \<lparr>rules = Some dark_rules\<rparr>), (''light'', \<lparr>rules = Some light_rules\<rparr>)]"

section \<open>Properties of the variable extractor\<close>


lemma forEach_rules_fails:
  "\<not> list_all is_declaration rs \<Longrightarrow> \<exists>e. forEach_rules vars rs = Inl e"
  by (induction rs arbitrary: vars)
     (auto simp: add_variable_def is_declaration_def split: option.splits)




lemma uniq_first_cong: "set a = set b \<Longrightarrow> uniq_first a xs = uniq_first b xs"
proof (induction xs arbitrary: a b)
  case Nil
  then show ?case by simp
next
  case (Cons x xs)
  have "uniq_first (x # a) xs = uniq_first (x # b) xs"
    by (rule Cons.IH) (simp add: Cons.prems)
  moreover have "uniq_first a xs = uniq_first b xs"
    by (rule Cons.IH) (rule Cons.prems)
  ultimately show ?case using Cons.prems by simp
qed

lemma uniq_first_props:
  "distinct (uniq_first seen xs) \<and> set (uniq_first seen xs) = set xs - set seen"
  by (induction xs arbitrary: seen) auto

lemma obj_set_keys:
  "map fst (obj_set ob k v) = (if k \<in> set (map fst ob) then map fst ob else map fst ob @ [k])"
  by (simp add: obj_set_def update_keys)

lemma fold_set_keys:
  "map fst (fold (\<lambda>n ob. obj_set ob (f n) (g n)) rs vars)
     = map fst vars @ uniq_first (map fst vars) (map f rs)"
proof (induction rs arbitrary: vars)
  case Nil
  then show ?case by simp
next
  case (Cons r rs)
  show ?case
  proof (cases "f r \<in> set (map fst vars)")
    case True
    then show ?thesis
      by (simp add: Cons.IH obj_set_keys)
  next
    case False
    have "uniq_first (map fst vars @ [f r]) (map f rs) = uniq_first (f r # map fst vars) (map f rs)"
      by (rule uniq_first_cong) auto
    with False show ?thesis
      by (simp add: Cons.IH obj_set_keys)
  qed
qed

lemma parse_ok:
  assumes "readFileSync E p = Inr c" "parse E c = Inr t" "rules t = Some rs"
  shows "parseLessVariables E p = forEach_rules [] rs"
  using assms by (simp add: parseLessVariables_def parseLessVariables_trace_def split: sum.splits)






text \<open>A tree with no top-level node at all gives the empty map.\<close>

lemma extract_no_rules:
  assumes "readFileSync E p = Inr c" and "parse E c = Inr t"
    and "rules t = None \<or> rules t = Some []"
  shows "parseLessVariables E p = Inr []"
  using assms by (auto simp: parseLessVariables_def parseLessVariables_trace_def)

text \<open>A tree with a top-level node that is not a declaration makes the extraction fail.\<close>

lemma extract_fails_on_non_declaration:
  assumes "readFileSync E p = Inr c" and "parse E c = Inr t" and "rules t = Some rs"
    and "\<not> list_all is_declaration rs"
  shows "\<exists>e. parseLessVariables E p = Inl e"
  using assms forEach_rules_fails [of rs "[]"] by (simp add: parse_ok)

text \<open>
  Claim C8 at a file whose tree has a top-level node that is not a declaration (a rule
  block, a comment): the node has no \<open>name\<close>, slicing it throws, and the extraction is
  rejected with that \<open>TypeError\<close> where the claim gives the empty map.
\<close>

theorem extract_non_declaration_throws:
  "parseLessVariables
     (table_env [(''/t/dark.less'', ''.foo{color:red}'')]
                [(''.foo{color:red}'', \<lparr>rules = Some [\<lparr>name = None, value = None\<rparr>]\<rparr>)])
     ''/t/dark.less''
   = Inl (TypeError ''slice'')"
  by (simp add: parseLessVariables_def parseLessVariables_trace_def table_env_def add_variable_def)

text \<open>
  Claim C7. When reading the file throws, \<open>parseLessVariables\<close> rejects with the error
  thrown, after that one attempt to read; when the text is read and the parser rejects it,
  \<open>parseLessVariables\<close> rejects with the parser's error, after one read and one parse.
  The \<open>catch\<close> block only reports the error before passing it on.
\<close>

theorem extract_errors_propagate:
  "(readFileSync E p = Inl e \<longrightarrow>
      parseLessVariables_trace E p = ([ReadFile p, ConsoleError e], Inl e)
      \<and> parseLessVariables E p = Inl e)
   \<and> (readFileSync E p = Inr c \<and> parse E c = Inl e \<longrightarrow>
      parseLessVariables_trace E p = ([ReadFile p, Parse c, ConsoleError e], Inl e)
      \<and> parseLessVariables E p = Inl e)"
  by (simp add: parseLessVariables_def parseLessVariables_trace_def)

theorem extract_errors_propagate_witness:
  "parseLessVariables_trace (table_env [(''/t/bad.less'', ''@a: ;;{'')] []) ''/t/missing.less''
     = ([ReadFile ''/t/missing.less'', ConsoleError (FileReadError ''/t/missing.less'')],
        Inl (FileReadError ''/t/missing.less''))
   \<and> parseLessVariables_trace (table_env [(''/t/bad.less'', ''@a: ;;{'')] []) ''/t/bad.less''
     = ([ReadFile ''/t/bad.less'', Parse ''@a: ;;{'', ConsoleError (ParseError ''@a: ;;{'')],
        Inl (ParseError ''@a: ;;{''))"
  using extract_errors_propagate
      [of "table_env [(''/t/bad.less'', ''@a: ;;{'')] []" "''/t/missing.less''"
          "FileReadError ''/t/missing.less''" "[]"]
    extract_errors_propagate
      [of "table_env [(''/t/bad.less'', ''@a: ;;{'')] []" "''/t/bad.less''"
          "ParseError ''@a: ;;{''" "''@a: ;;{''"]
  by (simp add: table_env_def)

section \<open>Properties of the override block\<close>

lemma own_keys_no_index:
  "\<forall>k \<in> set (map fst ob). \<not> is_array_index k \<Longrightarrow> own_keys ob = map fst ob"
  by (simp add: own_keys_def filter_empty_conv filter_id_conv)

lemma uniq_first_append:
  "uniq_first seen (xs @ ys) = uniq_first seen xs @ uniq_first (seen @ xs) ys"
proof (induction xs arbitrary: seen)
  case Nil
  then show ?case by simp
next
  case (Cons x xs)
  have a: "uniq_first ((x # seen) @ xs) ys = uniq_first (seen @ x # xs) ys"
    by (rule uniq_first_cong) auto
  have b: "x \<in> set seen \<Longrightarrow> uniq_first (seen @ xs) ys = uniq_first (seen @ x # xs) ys"
    by (rule uniq_first_cong) auto
  show ?case using a b by (simp add: Cons.IH)
qed

lemma spread_keys:
  assumes "\<forall>k \<in> set (map fst src). \<not> is_array_index k"
  shows "map fst (spread target src)
           = map fst target @ uniq_first (map fst target) (map fst src)"
proof -
  have "fold (\<lambda>k ob. case obj_get src k of None \<Rightarrow> ob | Some v \<Rightarrow> obj_set ob k v)
          (map fst src) target
        = fold (\<lambda>k ob. obj_set ob k (case obj_get src k of None \<Rightarrow> [] | Some v \<Rightarrow> v))
          (map fst src) target"
    by (rule fold_cong) (auto simp: obj_get_def map_of_eq_None_iff split: option.splits)
  then show ?thesis
    using fold_set_keys [of "\<lambda>k. k" "\<lambda>k. case obj_get src k of None \<Rightarrow> [] | Some v \<Rightarrow> v"
                            "map fst src" target]
    by (simp add: spread_def own_keys_no_index [OF assms])
qed

lemma merged_keys:
  assumes "\<forall>k \<in> set (map fst d @ map fst l). \<not> is_array_index k"
  shows "own_keys (spread (spread [] l) d) = first_seen (map fst l @ map fst d)"
proof -
  have l: "\<forall>k \<in> set (map fst l). \<not> is_array_index k"
    and d: "\<forall>k \<in> set (map fst d). \<not> is_array_index k"
    using assms by auto
  have k1: "map fst (spread [] l) = uniq_first [] (map fst l)"
    by (simp add: spread_keys [OF l])
  have k2: "map fst (spread (spread [] l) d)
              = uniq_first [] (map fst l) @ uniq_first (uniq_first [] (map fst l)) (map fst d)"
    by (simp add: spread_keys [OF d] k1)
  have "uniq_first (uniq_first [] (map fst l)) (map fst d) = uniq_first ([] @ map fst l) (map fst d)"
    by (rule uniq_first_cong) (simp add: uniq_first_props)
  then have k3: "map fst (spread (spread [] l) d) = first_seen (map fst l @ map fst d)"
    by (simp add: k2 first_seen_def uniq_first_append)
  have "\<forall>k \<in> set (map fst (spread (spread [] l) d)). \<not> is_array_index k"
    using l d by (auto simp: k3 first_seen_def uniq_first_props)
  from own_keys_no_index [OF this] show ?thesis by (simp add: k3)
qed

lemma reduce_declarations:
  "foldl (\<lambda>pre (key, v). pre @ ''@'' @ key @ '':'' @ v @ '';'') acc
     (map (\<lambda>key. (key, placeholder p key)) ks)
   = acc @ override_block p ks"
  by (induction ks arbitrary: acc) (simp_all add: override_block_def override_declaration_def)

lemma getThemeVars_ok:
  assumes "parseLessVariables E (theme_file E opts (darkFileName opts)) = Inr d"
    and "parseLessVariables E (theme_file E opts (lightFileName opts)) = Inr l"
  shows "getThemeVars E opts = Inr \<lparr>light = l, dark = d\<rparr>"
  using assms by (simp add: getThemeVars_def theme_file_def Promise_all2_def Let_def)

lemma lessDefaultAddictionData_ok:
  assumes "parseLessVariables E (theme_file E opts (darkFileName opts)) = Inr d"
    and "parseLessVariables E (theme_file E opts (lightFileName opts)) = Inr l"
    and "\<forall>k \<in> set (map fst d @ map fst l). \<not> is_array_index k"
  shows "lessDefaultAddictionData E opts
           = Inr (override_block (themeClassPre opts) (first_seen (map fst l @ map fst d)))"
  using reduce_declarations [of "[]"]
  by (simp add: lessDefaultAddictionData_def getLessVariables_def
        getThemeVars_ok [OF assms(1,2)] merged_keys [OF assms(3)])

text \<open>
  Claim C2, as amended. When both theme files are extracted and no variable name is an
  array index, \<open>lessDefaultAddictionData\<close> returns the concatenation, with no separator,
  of one declaration \<open>@name:~'var(--{prefix}-{name})';\<close> for each name of the two variants,
  each name once, in the order of first appearance with the names of the light variant
  before those of the dark variant (the merged object is \<open>{...light, ...dark}\<close>). It is the
  empty string when neither file declares a variable. For dark \<open>{primary-color, my-color}\<close>,
  light \<open>{primary-color}\<close> and prefix \<open>antd-theme\<close> it is the string of the claim.
\<close>

theorem override_block_light_then_dark:
  assumes "parseLessVariables E (theme_file E opts (darkFileName opts)) = Inr d"
    and "parseLessVariables E (theme_file E opts (lightFileName opts)) = Inr l"
    and "\<forall>k \<in> set (map fst d @ map fst l). \<not> is_array_index k"
  shows "lessDefaultAddictionData E opts
           = Inr (override_block (themeClassPre opts) (first_seen (map fst l @ map fst d)))
       \<and> (d = [] \<and> l = [] \<longrightarrow> lessDefaultAddictionData E opts = Inr [])"
  using lessDefaultAddictionData_ok [OF assms]
  by (auto simp: first_seen_def override_block_def)

theorem override_block_light_then_dark_witness:
  "lessDefaultAddictionData
     (theme_env [decl ''@primary-color'' ''red'', decl ''@my-color'' ''green'']
                [decl ''@primary-color'' ''blue''])
     (defaultOptions ''/app'')
   = Inr ''@primary-color:~'var(--antd-theme-primary-color)';@my-color:~'var(--antd-theme-my-color)';''"
proof -
  let ?E = "theme_env [decl ''@primary-color'' ''red'', decl ''@my-color'' ''green'']
                [decl ''@primary-color'' ''blue'']"
  let ?O = "defaultOptions ''/app''"
  have d: "parseLessVariables ?E (theme_file ?E ?O (darkFileName ?O))
             = Inr [(''primary-color'', ''red''), (''my-color'', ''green'')]"
    by (simp add: parseLessVariables_def parseLessVariables_trace_def theme_env_def table_env_def
          theme_file_def defaultOptions_def decl_def add_variable_def obj_set_def)
  have l: "parseLessVariables ?E (theme_file ?E ?O (lightFileName ?O))
             = Inr [(''primary-color'', ''blue'')]"
    by (simp add: parseLessVariables_def parseLessVariables_trace_def theme_env_def table_env_def
          theme_file_def defaultOptions_def decl_def add_variable_def obj_set_def)
  have i: "\<forall>k \<in> set (map fst [(''primary-color'', ''red''), (''my-color'', ''green'')]
                      @ map fst [(''primary-color'', ''blue'')]). \<not> is_array_index k"
    by (simp add: is_array_index_def is_digit_def)
  from override_block_light_then_dark [OF d l i] show ?thesis
    by (simp add: first_seen_def override_block_def override_declaration_def placeholder_def
          defaultOptions_def)
qed

text \<open>
  The claim as written puts the names of the dark variant first. With dark \<open>{a}\<close> and
  light \<open>{b}\<close> the block starts with the declaration of \<open>b\<close>.
\<close>

theorem override_block_order_counterexample:
  "lessDefaultAddictionData (theme_env [decl ''@a'' ''red''] [decl ''@b'' ''blue''])
     (defaultOptions ''/app'')
   = Inr ''@b:~'var(--antd-theme-b)';@a:~'var(--antd-theme-a)';''
   \<and> lessDefaultAddictionData (theme_env [decl ''@a'' ''red''] [decl ''@b'' ''blue''])
     (defaultOptions ''/app'')
   \<noteq> Inr (spec_override_block ''antd-theme'' [''a''] [''b''])"
proof -
  let ?E = "theme_env [decl ''@a'' ''red''] [decl ''@b'' ''blue'']"
  let ?O = "defaultOptions ''/app''"
  have d: "parseLessVariables ?E (theme_file ?E ?O (darkFileName ?O)) = Inr [(''a'', ''red'')]"
    by (simp add: parseLessVariables_def parseLessVariables_trace_def theme_env_def table_env_def
          theme_file_def defaultOptions_def decl_def add_variable_def obj_set_def)
  have l: "parseLessVariables ?E (theme_file ?E ?O (lightFileName ?O)) = Inr [(''b'', ''blue'')]"
    by (simp add: parseLessVariables_def parseLessVariables_trace_def theme_env_def table_env_def
          theme_file_def defaultOptions_def decl_def add_variable_def obj_set_def)
  have i: "\<forall>k \<in> set (map fst [(''a'', ''red'')] @ map fst [(''b'', ''blue'')]). \<not> is_array_index k"
    by (simp add: is_array_index_def is_digit_def)
  have r: "lessDefaultAddictionData ?E ?O = Inr ''@b:~'var(--antd-theme-b)';@a:~'var(--antd-theme-a)';''"
    by (simp only: lessDefaultAddictionData_ok [OF d l i])
       (simp add: first_seen_def override_block_def override_declaration_def placeholder_def
          defaultOptions_def)
  show ?thesis
    by (simp only: r)
       (simp add: spec_override_block_def first_seen_def override_block_def
          override_declaration_def placeholder_def)
qed

text \<open>Names that are array indices come first, in numeric order, wherever they were
  declared.\<close>

lemma own_keys_index_first:
  "own_keys [(''b'', ''red''), (''10'', ''x''), (''9'', ''y'')] = [''9'', ''10'', ''b'']"
  by (simp add: own_keys_def is_array_index_def is_digit_def index_value_def digit_value_def)

lemma Promise_all2_rejects:
  "isl a \<or> isl b \<Longrightarrow>
   \<exists>e. Promise_all2 first a b = Inl e \<and> (a = Inl e \<or> b = Inl e)"
  by (cases a; cases b) (auto simp: Promise_all2_def)

text \<open>
  Claim C9. When the extraction of the dark or of the light variant fails,
  \<open>getThemeVars\<close> fails with the error of one of them, and that error is the result of
  \<open>lessDefaultAddictionData\<close> and of every call of the content-prepend function: no
  block is made from the variant that succeeded.
\<close>

theorem theme_failure_propagates:
  assumes "isl (parseLessVariables E (theme_file E opts (darkFileName opts)))
         \<or> isl (parseLessVariables E (theme_file E opts (lightFileName opts)))"
  shows "\<exists>e. (parseLessVariables E (theme_file E opts (darkFileName opts)) = Inl e
              \<or> parseLessVariables E (theme_file E opts (lightFileName opts)) = Inl e)
           \<and> getThemeVars E opts = Inl e
           \<and> lessDefaultAddictionData E opts = Inl e
           \<and> (\<forall>originData content. getLessAddictionData E opts originData content = Inl e)"
proof -
  from Promise_all2_rejects [OF assms, of "dark_settles_first E"]
  obtain e where e: "Promise_all2 (dark_settles_first E)
        (parseLessVariables E (theme_file E opts (darkFileName opts)))
        (parseLessVariables E (theme_file E opts (lightFileName opts))) = Inl e"
      "parseLessVariables E (theme_file E opts (darkFileName opts)) = Inl e
        \<or> parseLessVariables E (theme_file E opts (lightFileName opts)) = Inl e"
    by blast
  from e(1) have g: "getThemeVars E opts = Inl e"
    by (simp add: getThemeVars_def theme_file_def Let_def)
  then have "lessDefaultAddictionData E opts = Inl e"
    by (simp add: lessDefaultAddictionData_def getLessVariables_def)
  then show ?thesis using e(2) g
    by (auto simp: getLessAddictionData_def)
qed

theorem theme_failure_propagates_witness:
  "isl (parseLessVariables (table_env [(''/app/src/theme/dark.less'', ''@a: red;'')]
                             [(''@a: red;'', \<lparr>rules = Some [decl ''@a'' ''red'']\<rparr>)])
          ''/app/src/theme/light.less'')
   \<and> lessDefaultAddictionData (table_env [(''/app/src/theme/dark.less'', ''@a: red;'')]
                             [(''@a: red;'', \<lparr>rules = Some [decl ''@a'' ''red'']\<rparr>)])
        (defaultOptions ''/app'') = Inl (FileReadError ''/app/src/theme/light.less'')
   \<and> getLessAddictionData (table_env [(''/app/src/theme/dark.less'', ''@a: red;'')]
                             [(''@a: red;'', \<lparr>rules = Some [decl ''@a'' ''red'']\<rparr>)])
        (defaultOptions ''/app'') (AD_String []) ''.foo{color:red}''
        = Inl (FileReadError ''/app/src/theme/light.less'')"
proof -
  let ?E = "table_env [(''/app/src/theme/dark.less'', ''@a: red;'')]
                             [(''@a: red;'', \<lparr>rules = Some [decl ''@a'' ''red'']\<rparr>)]"
  let ?O = "defaultOptions ''/app''"
  have l: "parseLessVariables ?E (theme_file ?E ?O (lightFileName ?O))
             = Inl (FileReadError ''/app/src/theme/light.less'')"
    by (simp add: parseLessVariables_def parseLessVariables_trace_def table_env_def
          theme_file_def defaultOptions_def)
  have d: "parseLessVariables ?E (theme_file ?E ?O (darkFileName ?O)) = Inr [(''a'', ''red'')]"
    by (simp add: parseLessVariables_def parseLessVariables_trace_def table_env_def
          theme_file_def defaultOptions_def decl_def add_variable_def obj_set_def)
  have p: "theme_file ?E ?O (lightFileName ?O) = ''/app/src/theme/light.less''"
    by (simp add: table_env_def theme_file_def defaultOptions_def)
  from theme_failure_propagates [of ?E ?O] l d show ?thesis
    by (auto simp: p)
qed

section \<open>Properties of the content-prepend function\<close>

lemma block_a:
  "lessDefaultAddictionData (theme_env [decl ''@a'' ''red''] []) (defaultOptions ''/app'')
     = Inr ''@a:~'var(--antd-theme-a)';''"
proof -
  let ?E = "theme_env [decl ''@a'' ''red''] []"
  let ?O = "defaultOptions ''/app''"
  have d: "parseLessVariables ?E (theme_file ?E ?O (darkFileName ?O)) = Inr [(''a'', ''red'')]"
    by (simp add: parseLessVariables_def parseLessVariables_trace_def theme_env_def table_env_def
          theme_file_def defaultOptions_def decl_def add_variable_def obj_set_def)
  have l: "parseLessVariables ?E (theme_file ?E ?O (lightFileName ?O)) = Inr []"
    by (simp add: parseLessVariables_def parseLessVariables_trace_def theme_env_def table_env_def
          theme_file_def defaultOptions_def)
  have i: "\<forall>k \<in> set (map fst [(''a'', ''red'')] @ map fst []). \<not> is_array_index k"
    by (simp add: is_array_index_def is_digit_def)
  show ?thesis
    by (simp only: lessDefaultAddictionData_ok [OF d l i])
       (simp add: first_seen_def override_block_def override_declaration_def placeholder_def
          defaultOptions_def)
qed

lemma getLessAddictionData_string:
  assumes "lessDefaultAddictionData E opts = Inr vars"
  shows "getLessAddictionData E opts (AD_String s) content =
           (if take 7 (trim (s @ content)) = ''@import''
            then Inr (replace_imports (''$1'' @ vars) [] (s @ content))
            else Inr (vars @ s @ content))"
  using assms by (simp add: getLessAddictionData_def)

text \<open>
  Claim C6, as amended. Let the override block be made. When the original option is a
  string and the string followed by the content does not begin, once trimmed, with
  \<open>@import\<close>, the result is the block, then the original string, then the content. When
  the original option is a function and what it returns for the content does not begin,
  once trimmed, with \<open>@import\<close>, the result is the block followed by what the function
  returned. For the content \<open>.foo{color:red}\<close> and the empty original option the result is
  the block followed by \<open>.foo{color:red}\<close>.
\<close>

theorem prepend_without_import:
  assumes "lessDefaultAddictionData E opts = Inr vars"
  shows "(take 7 (trim (s @ content)) \<noteq> ''@import'' \<longrightarrow>
            getLessAddictionData E opts (AD_String s) content = Inr (vars @ s @ content))
       \<and> (f content = Inr c' \<and> take 7 (trim c') \<noteq> ''@import'' \<longrightarrow>
            getLessAddictionData E opts (AD_Function f) content = Inr (vars @ c'))"
  using assms by (simp add: getLessAddictionData_def)

theorem prepend_without_import_witness:
  "getLessAddictionData (theme_env [decl ''@a'' ''red''] []) (defaultOptions ''/app'')
      (AD_String []) ''.foo{color:red}''
     = Inr ''@a:~'var(--antd-theme-a)';.foo{color:red}''
   \<and> getLessAddictionData (theme_env [decl ''@a'' ''red''] []) (defaultOptions ''/app'')
      (AD_Function (\<lambda>c. Inr (''@x: 1;'' @ c))) ''.foo{color:red}''
     = Inr ''@a:~'var(--antd-theme-a)';@x: 1;.foo{color:red}''"
  using prepend_without_import [OF block_a, of "[]" "''.foo{color:red}''"
      "\<lambda>c. Inr (''@x: 1;'' @ c)" "''@x: 1;.foo{color:red}''"]
  by (simp add: trim_def is_white_space_def)

text \<open>
  The claim as written holds for every content. A content that begins with an import
  takes the other branch: the block follows the import instead of leading.
\<close>

theorem prepend_import_counterexample:
  "getLessAddictionData (theme_env [decl ''@a'' ''red''] []) (defaultOptions ''/app'')
      (AD_String []) ''@import 'a.less';.foo{color:red}''
     = Inr ''@import 'a.less';@a:~'var(--antd-theme-a)';.foo{color:red}''
   \<and> getLessAddictionData (theme_env [decl ''@a'' ''red''] []) (defaultOptions ''/app'')
      (AD_String []) ''@import 'a.less';.foo{color:red}''
     \<noteq> Inr (''@a:~'var(--antd-theme-a)';'' @ [] @ ''@import 'a.less';.foo{color:red}'')"
  by (simp add: getLessAddictionData_string [OF block_a] trim_def is_white_space_def
        replace_imports.simps match_import_def is_line_terminator_def)

lemma GetSubstitution_plain:
  "CHR ''$'' \<notin> set t \<Longrightarrow> GetSubstitution m b a t = t"
  by (induction m b a t rule: GetSubstitution.induct) auto

lemma GetSubstitution_template:
  "CHR ''$'' \<notin> set vars \<Longrightarrow> GetSubstitution m b a (''$1'' @ vars) = m @ vars"
  by (cases vars) (simp_all add: GetSubstitution_plain)

lemma match_import_needs_semicolon:
  "CHR '';'' \<notin> set s \<Longrightarrow> match_import s = None"
proof -
  assume a: "CHR '';'' \<notin> set s"
  have "set (takeWhile (\<lambda>c. \<not> is_line_terminator c) (drop 7 s)) \<subseteq> set s"
    using set_takeWhileD set_drop_subset by fastforce
  with a show ?thesis by (auto simp: match_import_def Let_def)
qed

lemma replace_imports_no_semicolon:
  "CHR '';'' \<notin> set s \<Longrightarrow> replace_imports t b s = s"
proof (induction s arbitrary: b)
  case Nil
  show ?case by (simp add: replace_imports.simps)
next
  case (Cons c cs)
  have "match_import (c # cs) = None"
    by (rule match_import_needs_semicolon) (rule Cons.prems)
  moreover have "replace_imports t (b @ [c]) cs = cs"
    using Cons.prems by (intro Cons.IH) simp
  ultimately show ?case
    by (subst replace_imports.simps) simp
qed

lemma split_at_last:
  "s = rev (dropWhile P (rev s)) @ rev (takeWhile P (rev s))"
proof -
  have "rev (takeWhile P (rev s) @ dropWhile P (rev s)) = rev (rev s)"
    by (simp only: takeWhile_dropWhile_id)
  then show ?thesis by (simp only: rev_append rev_rev_ident)
qed

lemma length_before_last:
  "length (rev (dropWhile P (rev s))) = length s - length (takeWhile P (rev s))"
proof -
  have "length (takeWhile P (rev s)) + length (dropWhile P (rev s))
          = length (takeWhile P (rev s) @ dropWhile P (rev s))"
    by (simp only: length_append)
  also have "\<dots> = length (rev s)"
    by (simp only: takeWhile_dropWhile_id)
  finally show ?thesis by simp
qed

lemma match_import_one_line:
  assumes "take 7 s = ''@import''" and "\<forall>c \<in> set s. \<not> is_line_terminator c"
    and "CHR '';'' \<in> set (drop 7 s)"
  shows "match_import s = Some (length (rev (dropWhile (\<lambda>c. c \<noteq> CHR '';'') (rev s))))"
proof -
  let ?P = "\<lambda>c. c \<noteq> CHR '';''"
  have line: "takeWhile (\<lambda>c. \<not> is_line_terminator c) (drop 7 s) = drop 7 s"
    using assms(2) by (auto simp: takeWhile_eq_all_conv dest: in_set_dropD)
  have len: "7 \<le> length s" using assms(1) by (cases "7 \<le> length s") auto
  have "rev s = rev (drop 7 s) @ rev (take 7 s)"
    by (simp only: rev_append [symmetric] append_take_drop_id)
  moreover have "takeWhile ?P (rev (drop 7 s) @ rev (take 7 s)) = takeWhile ?P (rev (drop 7 s))"
    using assms(3) by (intro takeWhile_append1 [of "CHR '';''"]) simp_all
  ultimately have tw: "takeWhile ?P (rev s) = takeWhile ?P (rev (drop 7 s))"
    by (simp only:)
  have "length (takeWhile ?P (rev (drop 7 s))) \<le> length (rev (drop 7 s))"
    by (rule length_takeWhile_le)
  then have "7 + (length (drop 7 s) - length (takeWhile ?P (rev (drop 7 s))))
        = length s - length (takeWhile ?P (rev s))"
    using len by (simp add: tw)
  then have "7 + (length (drop 7 s) - length (takeWhile ?P (rev (drop 7 s))))
        = length (rev (dropWhile ?P (rev s)))"
    by (simp only: length_before_last)
  then show ?thesis
    using assms(1,3) by (simp add: match_import_def Let_def line)
qed

text \<open>
  What the replacement does on a content of one line that starts with an import, when the
  block holds no dollar sign: the block is put after the last semicolon of the line,
  whatever stands between the import and that semicolon.
\<close>

lemma replace_imports_one_line:
  assumes "take 7 s = ''@import''" and "\<forall>c \<in> set s. \<not> is_line_terminator c"
    and "CHR '';'' \<in> set (drop 7 s)" and "CHR ''$'' \<notin> set vars"
  shows "replace_imports (''$1'' @ vars) [] s
           = rev (dropWhile (\<lambda>c. c \<noteq> CHR '';'') (rev s)) @ vars
             @ rev (takeWhile (\<lambda>c. c \<noteq> CHR '';'') (rev s))"
proof -
  let ?P = "\<lambda>c. c \<noteq> CHR '';''"
  let ?a = "rev (dropWhile ?P (rev s))"
  let ?b = "rev (takeWhile ?P (rev s))"
  have s: "s = ?a @ ?b" by (rule split_at_last)
  have ne: "s \<noteq> []" using assms(1) by auto
  have m: "match_import s = Some (length ?a)"
    by (rule match_import_one_line [OF assms(1,2,3)])
  have "take (length ?a) (?a @ ?b) = ?a" and "drop (length ?a) (?a @ ?b) = ?b"
    by simp_all
  then have t: "take (length ?a) s = ?a" and d: "drop (length ?a) s = ?b"
    by (simp_all only: s [symmetric])
  have "CHR '';'' \<notin> set ?b"
    using set_takeWhileD by fastforce
  then have r: "replace_imports (''$1'' @ vars) ([] @ ?a) ?b = ?b"
    by (rule replace_imports_no_semicolon)
  have "replace_imports (''$1'' @ vars) [] s
          = GetSubstitution (take (length ?a) s) [] (drop (length ?a) s) (''$1'' @ vars)
            @ replace_imports (''$1'' @ vars) ([] @ take (length ?a) s) (drop (length ?a) s)"
    by (subst replace_imports.simps) (simp add: ne m)
  also have "\<dots> = (?a @ vars) @ ?b"
    by (simp only: t d r GetSubstitution_template [OF assms(4)])
  finally show ?thesis by simp
qed

text \<open>
  Claim C3 at two contents on one line. The match of \<open>/(@import.*;)/\<close> runs to the last
  semicolon of the line. In \<open>@import 'a.less';.foo{color:red;}\<close> that semicolon is inside
  the rule block, and the override block is put there, not after the import. In the
  content of the claim, \<open>@import 'a.less';@import 'b.less';.foo{color:red}\<close>, the two imports
  are one match and the block is inserted once, after the second.
\<close>

theorem prepend_greedy_import_match:
  "getLessAddictionData (theme_env [decl ''@a'' ''red''] []) (defaultOptions ''/app'')
      (AD_String []) ''@import 'a.less';.foo{color:red;}''
     = Inr ''@import 'a.less';.foo{color:red;@a:~'var(--antd-theme-a)';}''
   \<and> getLessAddictionData (theme_env [decl ''@a'' ''red''] []) (defaultOptions ''/app'')
      (AD_String []) ''@import 'a.less';@import 'b.less';.foo{color:red}''
     = Inr ''@import 'a.less';@import 'b.less';@a:~'var(--antd-theme-a)';.foo{color:red}''"
  by (simp add: getLessAddictionData_string [OF block_a] trim_def is_white_space_def
        replace_imports.simps match_import_def is_line_terminator_def)

section \<open>Properties of the rewrite of the loader chain\<close>

lemma injected_is_injected:
  "str_includes ''theme-var-loader'' (loaderPath E) \<Longrightarrow> is_injected (injected_loader E opts)"
  by (simp add: is_injected_def injected_loader_def)

lemma formatLessLoader_Some:
  "\<exists>w. formatLessLoader E opts (Some item) = Inr w"
  by (cases item) (simp_all add: formatLessLoader_def)

lemma last_index: "items \<noteq> [] \<Longrightarrow> items ! (length items - Suc 0) = last items"
  by (simp add: last_conv_nth)

lemma splice_last:
  "items \<noteq> [] \<Longrightarrow>
   splice_insert (length items - Suc 0) x (items[length items - Suc 0 := w])
     = butlast items @ [x, w]"
proof (induction items rule: rev_induct)
  case Nil
  then show ?case by simp
next
  case (snoc y ys)
  show ?case by (simp add: splice_insert_def)
qed

lemma rewrite_rule_array:
  assumes "use r = UseArray items" and "\<not> list_ex is_injected items" and "items \<noteq> []"
    and "formatLessLoader E opts (Some (last items)) = Inr w"
  shows "rewrite_rule E opts r
           = Inr (r\<lparr>use := UseArray (butlast items @ [injected_loader E opts, w])\<rparr>)"
  using assms by (simp add: rewrite_rule_def Let_def last_index splice_last)

lemma rewrite_rule_test: "rewrite_rule E opts r = Inr r' \<Longrightarrow> test r' = test r"
  by (auto simp: rewrite_rule_def Let_def
           split: rule_use.splits use_item.splits if_splits sum.splits)

lemma rewrite_rule_idem:
  assumes inj: "str_includes ''theme-var-loader'' (loaderPath E)"
    and r: "rewrite_rule E opts r = Inr r'"
  shows "rewrite_rule E opts r' = Inr r'"
proof (cases "use r")
  case (UseSingle item)
  show ?thesis
  proof (cases "\<exists>s. item = ItemString s \<and> str_includes ''less-loader'' s")
    case True
    then obtain s where s: "item = ItemString s" "str_includes ''less-loader'' s" by blast
    obtain w where w: "formatLessLoader E opts (Some (ItemString s)) = Inr w"
      using formatLessLoader_Some by blast
    from r UseSingle s w have "r' = r\<lparr>use := UseArray [injected_loader E opts, w]\<rparr>"
      by (simp add: rewrite_rule_def)
    then show ?thesis
      using injected_is_injected [OF inj, of opts] by (simp add: rewrite_rule_def)
  next
    case False
    with r UseSingle have "r' = r"
      by (cases item) (auto simp: rewrite_rule_def)
    with r show ?thesis by simp
  qed
next
  case (UseArray items)
  show ?thesis
  proof (cases "list_ex is_injected items")
    case True
    with r UseArray have "r' = r" by (simp add: rewrite_rule_def)
    with r show ?thesis by simp
  next
    case False
    have ne: "items \<noteq> []"
      using r UseArray False by (auto simp: rewrite_rule_def formatLessLoader_def)
    obtain w where w: "formatLessLoader E opts (Some (last items)) = Inr w"
      using formatLessLoader_Some by blast
    from rewrite_rule_array [OF UseArray False ne w] r
    have "r' = r\<lparr>use := UseArray (butlast items @ [injected_loader E opts, w])\<rparr>" by simp
    then show ?thesis
      using injected_is_injected [OF inj, of opts] by (simp add: rewrite_rule_def)
  qed
next
  case UseAbsent
  with r have "r' = r" by (simp add: rewrite_rule_def)
  with r show ?thesis by simp
qed

text \<open>
  Claim C4. \<open>path.resolve\<close> gives a path that ends in the file name it is given, so the
  path of the injected step contains \<open>theme-var-loader\<close>; this is the hypothesis. Then
  running the hook on the rule list it has left gives that rule list again, with the same
  outcome: a rule rewritten by the first run holds the injected step and is skipped, and a
  rule the first run left alone is left alone again.
\<close>

theorem rewrite_idempotent:
  assumes "str_includes ''theme-var-loader'' (loaderPath E)"
  shows "apply_environment E opts (fst (apply_environment E opts rs))
           = apply_environment E opts rs"
proof (induction rs)
  case Nil
  show ?case by simp
next
  case (Cons r rs)
  obtain rs' err where a: "apply_environment E opts rs = (rs', err)"
    by (cases "apply_environment E opts rs")
  with Cons.IH have b: "apply_environment E opts rs' = (rs', err)" by simp
  show ?case
  proof (cases "is_less_rule r")
    case False
    then show ?thesis by (simp add: a b)
  next
    case True
    show ?thesis
    proof (cases "rewrite_rule E opts r")
      case (Inl e)
      with True show ?thesis by simp
    next
      case (Inr r')
      have "is_less_rule r'"
        using True rewrite_rule_test [OF Inr] by (simp add: is_less_rule_def)
      moreover have "rewrite_rule E opts r' = Inr r'"
        by (rule rewrite_rule_idem [OF assms Inr])
      ultimately show ?thesis using True Inr by (simp add: a b)
    qed
  qed
qed

theorem rewrite_idempotent_witness:
  "str_includes ''theme-var-loader'' (loaderPath (theme_env [] []))
   \<and> apply_environment (theme_env [] []) (defaultOptions ''/app'')
       (fst (apply_environment (theme_env [] []) (defaultOptions ''/app'')
          [\<lparr>test = RegExp (ends_with ''.less''),
            use = UseArray [ItemString ''style-loader'', ItemString ''less-loader'']\<rparr>,
           \<lparr>test = RegExp (ends_with ''.css''), use = UseSingle (ItemString ''css-loader'')\<rparr>,
           \<lparr>test = RegExp (ends_with ''.less''), use = UseSingle (ItemString ''less-loader'')\<rparr>]))
     = apply_environment (theme_env [] []) (defaultOptions ''/app'')
          [\<lparr>test = RegExp (ends_with ''.less''),
            use = UseArray [ItemString ''style-loader'', ItemString ''less-loader'']\<rparr>,
           \<lparr>test = RegExp (ends_with ''.css''), use = UseSingle (ItemString ''css-loader'')\<rparr>,
           \<lparr>test = RegExp (ends_with ''.less''), use = UseSingle (ItemString ''less-loader'')\<rparr>]"
proof -
  have h: "str_includes ''theme-var-loader'' (loaderPath (theme_env [] []))"
    by (simp add: loaderPath_def theme_env_def table_env_def)
  from h rewrite_idempotent [OF h] show ?thesis by blast
qed

text \<open>
  Claim C5, as amended. For a rule that passes the filter and whose \<open>use\<close> is a non-empty
  sequence without the injected step, the rewrite gives the sequence without its last
  element, followed by the injected step and by the last element as \<open>formatLessLoader\<close>
  returns it; the earlier elements are unchanged.
\<close>

theorem rewrite_array:
  assumes "is_less_rule r" and "use r = UseArray items"
    and "\<not> list_ex is_injected items" and "items \<noteq> []"
  shows "\<exists>w. formatLessLoader E opts (Some (last items)) = Inr w
           \<and> rewrite_rule E opts r
               = Inr (r\<lparr>use := UseArray (butlast items @ [injected_loader E opts, w])\<rparr>)
           \<and> apply_environment E opts [r]
               = ([r\<lparr>use := UseArray (butlast items @ [injected_loader E opts, w])\<rparr>], None)"
proof -
  obtain w where w: "formatLessLoader E opts (Some (last items)) = Inr w"
    using formatLessLoader_Some by blast
  from rewrite_rule_array [OF assms(2,3,4) w] w assms(1) show ?thesis by simp
qed

theorem rewrite_array_witness:
  "apply_environment (theme_env [] []) (defaultOptions ''/app'')
     [\<lparr>test = RegExp (ends_with ''.less''),
       use = UseArray [ItemString ''style-loader'', ItemString ''css-loader'',
                       ItemString ''less-loader'']\<rparr>]
   = ([\<lparr>test = RegExp (ends_with ''.less''),
        use = UseArray [ItemString ''style-loader'', ItemString ''css-loader'',
                        injected_loader (theme_env [] []) (defaultOptions ''/app''),
                        less_loader_item (theme_env [] []) (defaultOptions ''/app'')]\<rparr>], None)"
proof -
  let ?E = "theme_env [] []"
  let ?O = "defaultOptions ''/app''"
  let ?items = "[ItemString ''style-loader'', ItemString ''css-loader'', ItemString ''less-loader'']"
  let ?r = "\<lparr>test = RegExp (ends_with ''.less''), use = UseArray ?items\<rparr>"
  have 1: "is_less_rule ?r" by (simp add: is_less_rule_def ends_with_def)
  have 2: "use ?r = UseArray ?items" by simp
  have 3: "\<not> list_ex is_injected ?items" by (simp add: is_injected_def)
  have 4: "?items \<noteq> []" by simp
  have 5: "formatLessLoader ?E ?O (Some (last ?items)) = Inr (less_loader_item ?E ?O)"
    by (simp add: formatLessLoader_def ends_with_def)
  from rewrite_array [OF 1 2 3 4, of ?E ?O] 5 show ?thesis by auto
qed

text \<open>
  The claim as written covers every sequence without the injected step. On the empty
  sequence there is no last element: \<open>formatLessLoader\<close> is called on \<open>undefined\<close> and
  throws, and the rule is left as it was.
\<close>

theorem rewrite_empty_array_counterexample:
  "is_less_rule \<lparr>test = RegExp (ends_with ''.less''), use = UseArray []\<rparr>
   \<and> \<not> list_ex is_injected []
   \<and> rewrite_rule (theme_env [] []) (defaultOptions ''/app'')
        \<lparr>test = RegExp (ends_with ''.less''), use = UseArray []\<rparr>
      = Inl (TypeError ''loader'')
   \<and> apply_environment (theme_env [] []) (defaultOptions ''/app'')
        [\<lparr>test = RegExp (ends_with ''.less''), use = UseArray []\<rparr>]
      = ([\<lparr>test = RegExp (ends_with ''.less''), use = UseArray []\<rparr>],
         Some (TypeError ''loader''))"
  by (simp add: is_less_rule_def ends_with_def rewrite_rule_def formatLessLoader_def)

text \<open>The wrapped form of an object step keeps the processor reference and the other
  options, and its \<open>additionalData\<close> is the content-prepend function made from the
  original one.\<close>

lemma formatLessLoader_composes:
  "formatLessLoader E opts (Some (ItemObject ob))
     = Inr (ItemObject
              \<lparr>loader = loader ob,
               options = Some \<lparr>additionalData =
                                 Some (AD_Function (getLessAddictionData E opts (userAdditionalData ob))),
                               entries = (case options ob of None \<Rightarrow> [] | Some os \<Rightarrow> entries os)\<rparr>,
               extras = []\<rparr>)"
  by (simp add: formatLessLoader_def)

end
